theory Spec2Isabelle
  imports Main "HOL-Library.Multiset"
begin

section \<open>Errors\<close>

text \<open>
  Both packages end the process in two ways: a run-time panic (a nil dereference, a slice
  expression out of range, \<^verbatim>\<open>regexp.MustCompile\<close> on a bad pattern) and \<^verbatim>\<open>log.Fatal\<close>
  (a bad pattern inside \<^verbatim>\<open>IsContains\<close>, a failed fetch or parse inside \<^verbatim>\<open>Extract\<close>). Each is a
  value here. \<open>OutsideFragment\<close> is not a behaviour of the program: it marks a call of the
  regular-expression library on an input that the model of that library below does not
  cover, and no theorem concludes anything from it.
\<close>

datatype error =
    PanicNilDereference
  | PanicSliceBounds
  | PanicMustCompile
  | FatalRegexp
  | FatalFetch
  | OutsideFragment

section \<open>The library functions the code calls\<close>

subsection \<open>strings.Split, strings.Join, slice expressions\<close>

text \<open>
  Go strings are byte sequences, as \<^typ>\<open>string\<close> is. \<^verbatim>\<open>strings.Split\<close> is only ever called
  with a one-byte separator (\<^verbatim>\<open>"/"\<close> and \<^verbatim>\<open>" "\<close>), so the separator is a \<^typ>\<open>char\<close>; the result is
  never empty, and splitting the empty string gives one empty field.
\<close>

fun strings_Split :: "string \<Rightarrow> char \<Rightarrow> string list" where
  "strings_Split [] sep = [[]]"
| "strings_Split (c # cs) sep =
     (if c = sep then [] # strings_Split cs sep
      else (let fields = strings_Split cs sep in (c # hd fields) # tl fields))"

fun strings_Join :: "string list \<Rightarrow> string \<Rightarrow> string" where
  "strings_Join [] sep = []"
| "strings_Join [x] sep = x"
| "strings_Join (x # y # ys) sep = x @ sep @ strings_Join (y # ys) sep"

text \<open>
  The slice expression \<^verbatim>\<open>xs[lo:hi]\<close> panics unless \<open>0 \<le> lo \<le> hi \<le> len\<close>. The bounds are Go
  \<^verbatim>\<open>int\<close>s: \<^verbatim>\<open>len(fname)-len(extension)\<close> can be negative.
\<close>

definition slice :: "'a list \<Rightarrow> int \<Rightarrow> int \<Rightarrow> error + 'a list" where
  "slice xs lo hi =
     (if 0 \<le> lo \<and> lo \<le> hi \<and> hi \<le> int (length xs)
      then Inr (take (nat (hi - lo)) (drop (nat lo) xs))
      else Inl PanicSliceBounds)"

subsection \<open>A fragment of package regexp\<close>

text \<open>
  The patterns of the program are \<^verbatim>\<open>.+/tree/.+\<close>, \<^verbatim>\<open>.+/blob/.+EXT$\<close> with the extension
  pasted in, and, inside \<^verbatim>\<open>IsContains\<close>, a directory name or an entry of the ignore list taken
  as a pattern. The model covers the patterns written with ordinary ASCII characters, \<^verbatim>\<open>.\<close>
  (any character but newline), \<^verbatim>\<open>$\<close> (end of text: no flag is set) and the postfix \<^verbatim>\<open>+\<close>,
  matched against ASCII text, where a character is a byte. On these the library fails to
  compile exactly the patterns in which \<^verbatim>\<open>+\<close> has nothing to repeat or follows another \<^verbatim>\<open>+\<close>.
  Every other pattern is \<open>OutsideFragment\<close>.
\<close>

datatype atom = Lit char | AnyCharNotNL | EndText

datatype item = One atom | Plus atom

definition meta_chars :: "char list" where
  "meta_chars = [CHR 0x5C, CHR ''.'', CHR ''+'', CHR ''*'', CHR ''?'', CHR ''('', CHR '')'',
                 CHR ''|'', CHR ''['', CHR '']'', CHR ''{'', CHR ''}'', CHR ''^'', CHR ''$'']"

definition ascii :: "char \<Rightarrow> bool" where
  "ascii c = ((of_char c :: nat) < 128)"

definition plain :: "char \<Rightarrow> bool" where
  "plain c = (ascii c \<and> c \<notin> set meta_chars)"

definition in_fragment :: "char \<Rightarrow> bool" where
  "in_fragment c = (plain c \<or> c = CHR ''.'' \<or> c = CHR ''$'' \<or> c = CHR ''+'')"

text \<open>
  The parser keeps the items read so far, newest first. A \<^verbatim>\<open>+\<close> needs an item before it that
  is not itself a repetition.
\<close>

fun parse :: "string \<Rightarrow> item list \<Rightarrow> item list option" where
  "parse [] stack = Some (rev stack)"
| "parse (c # cs) stack =
     (if c = CHR ''+'' then
        (case stack of
           [] \<Rightarrow> None
         | One a # rest \<Rightarrow> parse cs (Plus a # rest)
         | Plus a # rest \<Rightarrow> None)
      else if c = CHR ''.'' then parse cs (One AnyCharNotNL # stack)
      else if c = CHR ''$'' then parse cs (One EndText # stack)
      else parse cs (One (Lit c) # stack))"

datatype compiled = SyntaxError | Unmodelled | Regexp "item list"

definition regexp_Compile :: "string \<Rightarrow> compiled" where
  "regexp_Compile pattern =
     (if \<not> list_all in_fragment pattern then Unmodelled
      else case parse pattern [] of None \<Rightarrow> SyntaxError | Some p \<Rightarrow> Regexp p)"

fun accepts :: "atom \<Rightarrow> char \<Rightarrow> bool" where
  "accepts (Lit c) x = (x = c)"
| "accepts AnyCharNotNL x = (x \<noteq> CHR 0x0A)"
| "accepts EndText x = False"

fun run_plus :: "atom \<Rightarrow> string \<Rightarrow> string list" where
  "run_plus a [] = []"
| "run_plus a (x # xs) = (if accepts a x then xs # run_plus a xs else [])"

text \<open>
  \<open>item_step i s\<close> lists what can remain of the text \<open>s\<close> after \<open>i\<close> has matched at its
  front. A repeated \<^verbatim>\<open>$\<close> matches where \<^verbatim>\<open>$\<close> does.
\<close>

fun item_step :: "item \<Rightarrow> string \<Rightarrow> string list" where
  "item_step (One EndText) s = (if s = [] then [s] else [])"
| "item_step (Plus EndText) s = (if s = [] then [s] else [])"
| "item_step (One a) [] = []"
| "item_step (One a) (x # xs) = (if accepts a x then [xs] else [])"
| "item_step (Plus a) s = run_plus a s"

fun run :: "item list \<Rightarrow> string list \<Rightarrow> bool" where
  "run [] rests = (rests \<noteq> [])"
| "run (i # is) rests = run is (concat (map (item_step i) rests))"

text \<open>A match may start anywhere in the text, the end included.\<close>

fun search :: "item list \<Rightarrow> string \<Rightarrow> bool" where
  "search p [] = run p [[]]"
| "search p (x # xs) = (run p [x # xs] \<or> search p xs)"

text \<open>
  The library matches code points. For ASCII text they are the bytes, and a pattern without
  \<^verbatim>\<open>.\<close> compares bytes on any text; a pattern with \<^verbatim>\<open>.\<close> on other text is left out.
\<close>

definition dot_free :: "item list \<Rightarrow> bool" where
  "dot_free p = (One AnyCharNotNL \<notin> set p \<and> Plus AnyCharNotNL \<notin> set p)"

definition Match :: "item list \<Rightarrow> string \<Rightarrow> error + bool" where
  "Match p b = (if list_all ascii b \<or> dot_free p then Inr (search p b) else Inl OutsideFragment)"

text \<open>\<^verbatim>\<open>regexp.MustCompile\<close> panics on a pattern that does not compile.\<close>

definition regexp_MustCompile :: "string \<Rightarrow> error + item list" where
  "regexp_MustCompile pattern =
     (case regexp_Compile pattern of
        SyntaxError \<Rightarrow> Inl PanicMustCompile
      | Unmodelled \<Rightarrow> Inl OutsideFragment
      | Regexp p \<Rightarrow> Inr p)"

text \<open>
  \<^verbatim>\<open>regexp.Match(pattern, b)\<close> and \<^verbatim>\<open>regexp.MatchString(pattern, s)\<close> compile the pattern and
  search the text; \<open>None\<close> is the error they return for a pattern that does not compile.
\<close>

definition regexp_Match :: "string \<Rightarrow> string \<Rightarrow> error + bool option" where
  "regexp_Match pattern b =
     (case regexp_Compile pattern of
        SyntaxError \<Rightarrow> Inr None
      | Unmodelled \<Rightarrow> Inl OutsideFragment
      | Regexp p \<Rightarrow> map_sum id Some (Match p b))"

section \<open>Data\<close>

text \<open>
  \<^verbatim>\<open>MDDir\<close> and \<^verbatim>\<open>MDFile\<close> are the structs of both packages; an \<^verbatim>\<open>Element\<close> is the empty interface,
  which holds nil, an \<^verbatim>\<open>MDFile\<close> or an \<^verbatim>\<open>MDDir\<close>.
\<close>

datatype MDDir = MDDir (name: string) (href: string)

datatype MDFile = MDFile (href: string) (name: string) (dir: MDDir)

datatype Element = NilElement | FileElement MDFile | DirElement MDDir

text \<open>
  A node of \<^verbatim>\<open>golang.org/x/net/html\<close>: its type, its data (the tag of an element, the text of
  a text node), its attributes, and its children in sibling order (the list that
  \<^verbatim>\<open>FirstChild\<close> and \<^verbatim>\<open>NextSibling\<close> walk). The program reads the key and the value of an
  attribute and not its namespace.
\<close>

datatype NodeType =
  ErrorNode | TextNode | DocumentNode | ElementNode | CommentNode | DoctypeNode | RawNode

datatype Attribute = Attribute (Key: string) (Val: string)

datatype Node = Node (Type: NodeType) (Data: string) (Attr: "Attribute list") (Children: "Node list")

definition FirstChild :: "Node \<Rightarrow> Node option" where
  "FirstChild n = (case Children n of [] \<Rightarrow> None | c # cs \<Rightarrow> Some c)"

section \<open>CheckLink\<close>

text \<open>The local variables of \<^verbatim>\<open>CheckLink\<close> (\<open>fhref\<close> is called \<^verbatim>\<open>href\<close> in package commands).\<close>

record locals =
  hasRightStyles :: bool
  isTrackedFile :: bool
  isDir :: bool
  fhref :: string
  fname :: string
  dirname :: string
  dirhref :: string

definition locals0 :: locals where
  "locals0 = \<lparr>hasRightStyles = False, isTrackedFile = False, isDir = False,
              fhref = [], fname = [], dirname = [], dirhref = []\<rparr>"

definition matchFile_pattern :: "string \<Rightarrow> string" where
  "matchFile_pattern extension = ''.+/blob/.+'' @ extension @ ''$''"

definition matchDir_pattern :: string where
  "matchDir_pattern = ''.+/tree/.+''"

definition right_styles :: string where
  "right_styles = ''js-navigation-open link-gray-dark''"

subsection \<open>Package main\<close>

text \<open>
  \<^verbatim>\<open>IsContains(elements, pattern)\<close> of package main compiles \<open>pattern\<close> and searches each
  element for it; it is called with the ignore list and the directory name.
\<close>

fun main_IsContains :: "string list \<Rightarrow> string \<Rightarrow> error + bool" where
  "main_IsContains [] pattern = Inr False"
| "main_IsContains (e # es) pattern =
     (case regexp_Match pattern e of
        Inl err \<Rightarrow> Inl err
      | Inr None \<Rightarrow> Inl FatalRegexp
      | Inr (Some match) \<Rightarrow> if match then Inr True else main_IsContains es pattern)"

text \<open>The branch \<^verbatim>\<open>case "href"\<close> of the loop over the attributes.\<close>

definition main_href :: "item list \<Rightarrow> item list \<Rightarrow> Node \<Rightarrow> string \<Rightarrow> locals \<Rightarrow> error + locals" where
  "main_href matchFile matchDir n val st =
     (case FirstChild n of
        None \<Rightarrow> Inl PanicNilDereference
      | Some c \<Rightarrow>
         (let st1 = st\<lparr>fhref := ''https://github.com'' @ val, fname := Data c\<rparr>;
              pathArray = strings_Split (fhref st1) CHR ''/'';
              len = int (length pathArray);
              shaped =
                (case Match matchDir (fhref st1) of
                   Inl err \<Rightarrow> Inl err
                 | Inr True \<Rightarrow>
                    (case slice pathArray 5 (len - 1) of
                       Inl err \<Rightarrow> Inl err
                     | Inr segs \<Rightarrow> Inr (st1\<lparr>isDir := True, dirname := strings_Join segs ''/''\<rparr>))
                 | Inr False \<Rightarrow>
                    (case Match matchFile (fhref st1) of
                       Inl err \<Rightarrow> Inl err
                     | Inr True \<Rightarrow>
                        (case slice pathArray 7 (len - 1) of
                           Inl err \<Rightarrow> Inl err
                         | Inr segs \<Rightarrow>
                            Inr (st1\<lparr>isTrackedFile := True, dirname := strings_Join segs ''/''\<rparr>))
                     | Inr False \<Rightarrow> Inr st1))
          in case shaped of
               Inl err \<Rightarrow> Inl err
             | Inr st2 \<Rightarrow>
                if isDir st2 \<or> isTrackedFile st2 then
                  (case slice pathArray 0 (len - 1) of
                     Inl err \<Rightarrow> Inl err
                   | Inr segs \<Rightarrow> Inr (st2\<lparr>dirhref := strings_Join segs ''/''\<rparr>))
                else Inr st2))"

definition class_case :: "string \<Rightarrow> locals \<Rightarrow> locals" where
  "class_case val st = (if val = right_styles then st\<lparr>hasRightStyles := True\<rparr> else st)"

fun main_attrs :: "item list \<Rightarrow> item list \<Rightarrow> Node \<Rightarrow> Attribute list \<Rightarrow> locals \<Rightarrow> error + locals" where
  "main_attrs matchFile matchDir n [] st = Inr st"
| "main_attrs matchFile matchDir n (a # as) st =
     (if Key a = ''href'' then
        (case main_href matchFile matchDir n (Val a) st of
           Inl err \<Rightarrow> Inl err
         | Inr st' \<Rightarrow> main_attrs matchFile matchDir n as st')
      else if Key a = ''class'' then main_attrs matchFile matchDir n as (class_case (Val a) st)
      else main_attrs matchFile matchDir n as st)"

definition main_CheckLink :: "Node \<Rightarrow> string \<Rightarrow> string list \<Rightarrow> error + Element" where
  "main_CheckLink n extension ignoreDirs =
     (case regexp_MustCompile (matchFile_pattern extension) of
        Inl err \<Rightarrow> Inl err
      | Inr matchFile \<Rightarrow>
     (case regexp_MustCompile matchDir_pattern of
        Inl err \<Rightarrow> Inl err
      | Inr matchDir \<Rightarrow>
     (case main_attrs matchFile matchDir n (Attr n) locals0 of
        Inl err \<Rightarrow> Inl err
      | Inr st \<Rightarrow>
     (case main_IsContains ignoreDirs (dirname st) of
        Inl err \<Rightarrow> Inl err
      | Inr True \<Rightarrow> Inr NilElement
      | Inr False \<Rightarrow>
         if hasRightStyles st \<and> isTrackedFile st then
           (case slice (fname st) 0 (int (length (fname st)) - int (length extension)) of
              Inl err \<Rightarrow> Inl err
            | Inr nm \<Rightarrow> Inr (FileElement (MDFile (fhref st) nm (MDDir (dirname st) (dirhref st)))))
         else if hasRightStyles st \<and> isDir st then
           Inr (DirElement (MDDir (dirname st) (dirhref st)))
         else Inr NilElement))))"

subsection \<open>Package commands\<close>

text \<open>
  \<^verbatim>\<open>IsContains(elements, pattern)\<close> of package commands compiles each element and searches
  \<open>pattern\<close> for it. The test for the empty list comes first.
\<close>

fun commands_IsContains_loop :: "string list \<Rightarrow> string \<Rightarrow> error + bool" where
  "commands_IsContains_loop [] pattern = Inr False"
| "commands_IsContains_loop (e # es) pattern =
     (case regexp_Match e pattern of
        Inl err \<Rightarrow> Inl err
      | Inr None \<Rightarrow> Inl FatalRegexp
      | Inr (Some match) \<Rightarrow> if match then Inr True else commands_IsContains_loop es pattern)"

definition commands_IsContains :: "string list \<Rightarrow> string \<Rightarrow> error + bool" where
  "commands_IsContains elements pattern =
     (if length elements = 0 then Inr False else commands_IsContains_loop elements pattern)"

text \<open>
  In package commands the directory name of a directory starts at index 6 and runs to the
  end, and \<open>dirhref\<close> is declared and never assigned.
\<close>

definition commands_href :: "item list \<Rightarrow> item list \<Rightarrow> Node \<Rightarrow> string \<Rightarrow> locals \<Rightarrow> error + locals" where
  "commands_href matchFile matchDir n val st =
     (case FirstChild n of
        None \<Rightarrow> Inl PanicNilDereference
      | Some c \<Rightarrow>
         (let st1 = st\<lparr>fhref := ''https://github.com'' @ val, fname := Data c\<rparr>;
              pathArray = strings_Split (fhref st1) CHR ''/'';
              len = int (length pathArray)
          in case Match matchDir (fhref st1) of
               Inl err \<Rightarrow> Inl err
             | Inr True \<Rightarrow>
                (case slice pathArray 6 len of
                   Inl err \<Rightarrow> Inl err
                 | Inr segs \<Rightarrow> Inr (st1\<lparr>isDir := True, dirname := strings_Join segs ''/''\<rparr>))
             | Inr False \<Rightarrow>
                (case Match matchFile (fhref st1) of
                   Inl err \<Rightarrow> Inl err
                 | Inr True \<Rightarrow>
                    (case slice pathArray 7 (len - 1) of
                       Inl err \<Rightarrow> Inl err
                     | Inr segs \<Rightarrow>
                        Inr (st1\<lparr>isTrackedFile := True, dirname := strings_Join segs ''/''\<rparr>))
                 | Inr False \<Rightarrow> Inr st1)))"

fun commands_attrs :: "item list \<Rightarrow> item list \<Rightarrow> Node \<Rightarrow> Attribute list \<Rightarrow> locals \<Rightarrow> error + locals" where
  "commands_attrs matchFile matchDir n [] st = Inr st"
| "commands_attrs matchFile matchDir n (a # as) st =
     (if Key a = ''href'' then
        (case commands_href matchFile matchDir n (Val a) st of
           Inl err \<Rightarrow> Inl err
         | Inr st' \<Rightarrow> commands_attrs matchFile matchDir n as st')
      else if Key a = ''class'' then commands_attrs matchFile matchDir n as (class_case (Val a) st)
      else commands_attrs matchFile matchDir n as st)"

definition commands_CheckLink :: "Node \<Rightarrow> string \<Rightarrow> string list \<Rightarrow> error + Element" where
  "commands_CheckLink n extension ignoreDirs =
     (case regexp_MustCompile (matchFile_pattern extension) of
        Inl err \<Rightarrow> Inl err
      | Inr matchFile \<Rightarrow>
     (case regexp_MustCompile matchDir_pattern of
        Inl err \<Rightarrow> Inl err
      | Inr matchDir \<Rightarrow>
     (case commands_attrs matchFile matchDir n (Attr n) locals0 of
        Inl err \<Rightarrow> Inl err
      | Inr st \<Rightarrow>
         if \<not> hasRightStyles st then Inr NilElement
         else
          (case commands_IsContains ignoreDirs (dirname st) of
             Inl err \<Rightarrow> Inl err
           | Inr True \<Rightarrow> Inr NilElement
           | Inr False \<Rightarrow>
              if isTrackedFile st then
                (case slice (fname st) 0 (int (length (fname st)) - int (length extension)) of
                   Inl err \<Rightarrow> Inl err
                 | Inr nm \<Rightarrow> Inr (FileElement (MDFile (fhref st) nm (MDDir (dirname st) (dirhref st)))))
              else if isDir st then Inr (DirElement (MDDir (dirname st) (fhref st)))
              else Inr NilElement))))"

section \<open>Extract\<close>

text \<open>
  \<^verbatim>\<open>ForEachNode\<close> calls \<open>f\<close> on the node and then walks the children in sibling order. The
  closure it is given appends to \<^verbatim>\<open>files\<close> and may panic inside \<^verbatim>\<open>CheckLink\<close>, so \<open>f\<close> takes the
  collected list and returns the new one or the error that stops the walk.
\<close>

fun ForEachNode :: "Node \<Rightarrow> (Node \<Rightarrow> 's \<Rightarrow> error + 's) \<Rightarrow> 's \<Rightarrow> error + 's"
  and ForEachNode_children :: "Node list \<Rightarrow> (Node \<Rightarrow> 's \<Rightarrow> error + 's) \<Rightarrow> 's \<Rightarrow> error + 's" where
  "ForEachNode (Node t d a cs) f s =
     (case f (Node t d a cs) s of
        Inl err \<Rightarrow> Inl err
      | Inr s' \<Rightarrow> ForEachNode_children cs f s')"
| "ForEachNode_children [] f s = Inr s"
| "ForEachNode_children (c # cs) f s =
     (case ForEachNode c f s of
        Inl err \<Rightarrow> Inl err
      | Inr s' \<Rightarrow> ForEachNode_children cs f s')"

text \<open>
  The network and the HTML parser are outside the program: \<open>web url\<close> is what \<^verbatim>\<open>http.Get\<close>,
  the status test and \<^verbatim>\<open>html.Parse\<close> give for \<open>url\<close>, the parsed document or the
  \<^verbatim>\<open>log.Fatal\<close> that ends the process.
\<close>

type_synonym web = "string \<Rightarrow> error + Node"

definition main_visitNode :: "string \<Rightarrow> string list \<Rightarrow> Node \<Rightarrow> Element list \<Rightarrow> error + Element list" where
  "main_visitNode extension ignoreDirs n files =
     (if Type n = ElementNode \<and> Data n = ''a'' then
        (case main_CheckLink n extension ignoreDirs of
           Inl err \<Rightarrow> Inl err
         | Inr link \<Rightarrow> Inr (files @ [link]))
      else Inr files)"

definition main_Extract :: "web \<Rightarrow> string \<Rightarrow> string \<Rightarrow> string list \<Rightarrow> error + Element list" where
  "main_Extract web url extension ignoreDirs =
     (case web url of
        Inl err \<Rightarrow> Inl err
      | Inr doc \<Rightarrow> ForEachNode doc (main_visitNode extension ignoreDirs) [])"

definition commands_visitNode :: "string \<Rightarrow> string list \<Rightarrow> Node \<Rightarrow> Element list \<Rightarrow> error + Element list" where
  "commands_visitNode extension ignoreDirs n files =
     (if Type n = ElementNode \<and> Data n = ''a'' then
        (case commands_CheckLink n extension ignoreDirs of
           Inl err \<Rightarrow> Inl err
         | Inr link \<Rightarrow> if link \<noteq> NilElement then Inr (files @ [link]) else Inr files)
      else Inr files)"

definition commands_Extract :: "web \<Rightarrow> string \<Rightarrow> string \<Rightarrow> string list \<Rightarrow> error + Element list" where
  "commands_Extract web url extension ignoreDirs =
     (case web url of
        Inl err \<Rightarrow> Inl err
      | Inr doc \<Rightarrow> ForEachNode doc (commands_visitNode extension ignoreDirs) [])"

section \<open>GroupByDir\<close>

text \<open>
  The map is keyed by the struct \<^verbatim>\<open>MDDir\<close>. Reading a missing key gives the nil slice, to
  which \<^verbatim>\<open>append\<close> adds the file. The two packages have the same function.
\<close>

fun GroupByDir_range :: "MDFile list \<Rightarrow> (MDDir \<rightharpoonup> MDFile list) \<Rightarrow> (MDDir \<rightharpoonup> MDFile list)" where
  "GroupByDir_range [] grouped = grouped"
| "GroupByDir_range (f # fs) grouped =
     GroupByDir_range fs
       (grouped(MDFile.dir f \<mapsto> (case grouped (MDFile.dir f) of None \<Rightarrow> [] | Some l \<Rightarrow> l) @ [f]))"

definition GroupByDir :: "MDFile list \<Rightarrow> (MDDir \<rightharpoonup> MDFile list)" where
  "GroupByDir files = GroupByDir_range files Map.empty"

section \<open>The ignore list\<close>

text \<open>
  Package main splits the flag on spaces and passes the fields on; \<^verbatim>\<open>getIgnoreDirs\<close> of
  package commands returns the empty list when the first field is empty. \<^verbatim>\<open>strings.Split\<close>
  returns at least one field, so \<^verbatim>\<open>ignoreDirs[0]\<close> is in range.
\<close>

definition main_ignoreDirs :: "string \<Rightarrow> string list" where
  "main_ignoreDirs toIgnore = strings_Split toIgnore CHR '' ''"

definition commands_getIgnoreDirs :: "string \<Rightarrow> string list" where
  "commands_getIgnoreDirs toIgnore =
     (let ignoreDirs = strings_Split toIgnore CHR '' ''
      in if hd ignoreDirs = [] then [] else ignoreDirs)"

section \<open>Crawl\<close>

text \<open>
  The loop owns the counter \<open>n\<close> and \<open>results\<close>. Every \<^verbatim>\<open>go\<close> statement starts a goroutine that
  calls \<^verbatim>\<open>Extract\<close> on one URL and then blocks sending the list on the unbuffered channel
  \<^verbatim>\<open>worklist\<close>; \<open>senders\<close> holds the URLs of the goroutines that have been started and have not
  yet been received from. \<open>started\<close> and \<open>fetched\<close> are logs, not variables of the program:
  the URLs of the \<^verbatim>\<open>go\<close> statements in the order they ran, and the URLs whose list the loop has
  received.
\<close>

record crawl =
  n :: int
  results :: "MDFile list"
  senders :: "string list"
  started :: "string list"
  fetched :: "string list"

text \<open>The inner loop over one received list.\<close>

fun Crawl_range :: "Element list \<Rightarrow> crawl \<Rightarrow> crawl" where
  "Crawl_range [] st = st"
| "Crawl_range (DirElement v # fs) st =
     Crawl_range fs (st\<lparr>n := n st + 1,
                         senders := senders st @ [MDDir.href v],
                         started := started st @ [MDDir.href v]\<rparr>)"
| "Crawl_range (FileElement v # fs) st = Crawl_range fs (st\<lparr>results := results st @ [v]\<rparr>)"
| "Crawl_range (NilElement # fs) st = Crawl_range fs st"

text \<open>
  Which blocked goroutine the receive takes is not determined by the program: \<open>sched k\<close>
  chooses among the senders at the \<open>k\<close>-th receive, and the theorems hold for every \<open>sched\<close>. A
  receive with no sender blocks for ever, and so does a crawl that never runs out of
  directories: both are \<open>None\<close>. A goroutine whose \<^verbatim>\<open>Extract\<close> fails ends the process; the model
  reports the failure at the receive that would have taken its list. \<open>n\<close> is a Go \<^verbatim>\<open>int\<close>; it
  counts goroutines that exist at the same time and is taken as unbounded.
\<close>

partial_function (option) Crawl_loop ::
  "(string \<Rightarrow> error + Element list) \<Rightarrow> (nat \<Rightarrow> nat) \<Rightarrow> nat \<Rightarrow> crawl \<Rightarrow> (error + crawl) option" where
  "Crawl_loop extract sched k st =
     (if n st > 0 then
        (if senders st = [] then None
         else
           (let i = sched k mod length (senders st);
                url = senders st ! i
            in case extract url of
                 Inl err \<Rightarrow> Some (Inl err)
               | Inr list \<Rightarrow>
                  (let st1 = Crawl_range list
                               (st\<lparr>senders := take i (senders st) @ drop (Suc i) (senders st),
                                   fetched := fetched st @ [url]\<rparr>)
                   in Crawl_loop extract sched (Suc k) (st1\<lparr>n := n st1 - 1\<rparr>))))
      else Some (Inr st))"

definition Crawl_init :: "string \<Rightarrow> crawl" where
  "Crawl_init url = \<lparr>n = 1, results = [], senders = [url], started = [url], fetched = []\<rparr>"

definition main_Crawl_run :: "web \<Rightarrow> (nat \<Rightarrow> nat) \<Rightarrow> string \<Rightarrow> string \<Rightarrow> string list \<Rightarrow> (error + crawl) option" where
  "main_Crawl_run web sched url extension ignoreDirs =
     Crawl_loop (\<lambda>u. main_Extract web u extension ignoreDirs) sched 0 (Crawl_init url)"

definition main_Crawl :: "web \<Rightarrow> (nat \<Rightarrow> nat) \<Rightarrow> string \<Rightarrow> string \<Rightarrow> string list \<Rightarrow> (error + MDFile list) option" where
  "main_Crawl web sched url extension ignoreDirs =
     map_option (map_sum id results) (main_Crawl_run web sched url extension ignoreDirs)"

definition commands_Crawl_run :: "web \<Rightarrow> (nat \<Rightarrow> nat) \<Rightarrow> string \<Rightarrow> string \<Rightarrow> string list \<Rightarrow> (error + crawl) option" where
  "commands_Crawl_run web sched url extension ignoreDirs =
     Crawl_loop (\<lambda>u. commands_Extract web u extension ignoreDirs) sched 0 (Crawl_init url)"

definition commands_Crawl :: "web \<Rightarrow> (nat \<Rightarrow> nat) \<Rightarrow> string \<Rightarrow> string \<Rightarrow> string list \<Rightarrow> (error + MDFile list) option" where
  "commands_Crawl web sched url extension ignoreDirs =
     map_option (map_sum id results) (commands_Crawl_run web sched url extension ignoreDirs)"

subsection \<open>The directory tree a crawl walks\<close>

text \<open>
  The directories and the files of one received list, in the order of the list.
\<close>

fun dirs_of :: "Element list \<Rightarrow> string list" where
  "dirs_of [] = []"
| "dirs_of (DirElement v # fs) = MDDir.href v # dirs_of fs"
| "dirs_of (FileElement v # fs) = dirs_of fs"
| "dirs_of (NilElement # fs) = dirs_of fs"

fun files_of :: "Element list \<Rightarrow> MDFile list" where
  "files_of [] = []"
| "files_of (DirElement v # fs) = files_of fs"
| "files_of (FileElement v # fs) = v # files_of fs"
| "files_of (NilElement # fs) = files_of fs"

text \<open>
  A finite directory tree: a directory, by the URL it is fetched at, and under it one tree
  for every directory link of its page, in page order. \<open>is_tree extract url t\<close> says that \<open>t\<close>
  is what following the directory links from \<open>url\<close> unfolds to, every page on the way being
  extracted without error. A directory linked from two pages stands in the tree twice. A
  link structure with a cycle has no such tree.
\<close>

datatype dtree = Tree string "dtree list"

fun is_tree :: "(string \<Rightarrow> error + Element list) \<Rightarrow> string \<Rightarrow> dtree \<Rightarrow> bool"
  and is_forest :: "(string \<Rightarrow> error + Element list) \<Rightarrow> string list \<Rightarrow> dtree list \<Rightarrow> bool" where
  "is_tree extract url (Tree u ts) =
     (u = url \<and> (case extract url of Inl err \<Rightarrow> False | Inr list \<Rightarrow> is_forest extract (dirs_of list) ts))"
| "is_forest extract [] [] = True"
| "is_forest extract (u # us) (t # ts) = (is_tree extract u t \<and> is_forest extract us ts)"
| "is_forest extract [] (t # ts) = False"
| "is_forest extract (u # us) [] = False"

fun tree_urls :: "dtree \<Rightarrow> string list"
  and forest_urls :: "dtree list \<Rightarrow> string list" where
  "tree_urls (Tree u ts) = u # forest_urls ts"
| "forest_urls [] = []"
| "forest_urls (t # ts) = tree_urls t @ forest_urls ts"

definition files_at :: "(string \<Rightarrow> error + Element list) \<Rightarrow> string \<Rightarrow> MDFile list" where
  "files_at extract url = (case extract url of Inl err \<Rightarrow> [] | Inr list \<Rightarrow> files_of list)"

section \<open>Pre-order traversal\<close>

text \<open>
  The nodes of a document in pre-order, and a walk over a list of nodes that stops at the
  first error: what \<^verbatim>\<open>ForEachNode\<close> is compared with.
\<close>

fun preorder :: "Node \<Rightarrow> Node list"
  and preorder_children :: "Node list \<Rightarrow> Node list" where
  "preorder (Node t d a cs) = Node t d a cs # preorder_children cs"
| "preorder_children [] = []"
| "preorder_children (c # cs) = preorder c @ preorder_children cs"

fun visit_all :: "(Node \<Rightarrow> 's \<Rightarrow> error + 's) \<Rightarrow> Node list \<Rightarrow> 's \<Rightarrow> error + 's" where
  "visit_all f [] s = Inr s"
| "visit_all f (x # xs) s = (case f x s of Inl err \<Rightarrow> Inl err | Inr s' \<Rightarrow> visit_all f xs s')"

definition is_anchor :: "Node \<Rightarrow> bool" where
  "is_anchor node = (Type node = ElementNode \<and> Data node = ''a'')"

section \<open>Example pages\<close>

text \<open>
  A row of a listing page: an anchor with the marker class, a path as \<^verbatim>\<open>href\<close> and the label
  as its text child. \<open>plain_anchor\<close> is a link without the class, \<open>empty_row\<close> a row
  without a text child.
\<close>

definition row :: "string \<Rightarrow> string \<Rightarrow> Node" where
  "row path label =
     Node ElementNode ''a'' [Attribute ''class'' right_styles, Attribute ''href'' path]
       [Node TextNode label [] []]"

definition plain_anchor :: "string \<Rightarrow> string \<Rightarrow> Node" where
  "plain_anchor path label =
     Node ElementNode ''a'' [Attribute ''href'' path] [Node TextNode label [] []]"

definition empty_row :: "string \<Rightarrow> Node" where
  "empty_row path =
     Node ElementNode ''a'' [Attribute ''class'' right_styles, Attribute ''href'' path] []"

definition page :: "Node list \<Rightarrow> Node" where
  "page rows = Node DocumentNode [] [] [Node ElementNode ''html'' [] rows]"

text \<open>
  A repository with the file \<^verbatim>\<open>readme.md\<close> and the directory \<^verbatim>\<open>docs\<close>, which holds
  \<^verbatim>\<open>guide.md\<close>. The listing of the root is served at the repository URL and at the URL of
  its branch.
\<close>

definition repo_url :: string where
  "repo_url = ''https://github.com/u/r''"

definition branch_url :: string where
  "branch_url = ''https://github.com/u/r/tree/main''"

definition docs_url :: string where
  "docs_url = ''https://github.com/u/r/tree/main/docs''"

definition root_page :: Node where
  "root_page = page [row ''/u/r/tree/main/docs'' ''docs'', row ''/u/r/blob/main/readme.md'' ''readme.md'']"

definition docs_page :: Node where
  "docs_page = page [row ''/u/r/blob/main/docs/guide.md'' ''guide.md'']"

definition docs_site :: web where
  "docs_site url =
     (if url = repo_url \<or> url = branch_url then Inr root_page
      else if url = docs_url then Inr docs_page
      else Inl FatalFetch)"

text \<open>
  A site whose root page has two rows, \<^verbatim>\<open>lib/a\<close> and \<^verbatim>\<open>lib/b\<close>, and which serves at
  \<^verbatim>\<open>lib\<close> a listing with one file.
\<close>

definition lib_url :: string where
  "lib_url = ''https://github.com/u/r/tree/main/lib''"

definition two_rows_page :: Node where
  "two_rows_page = page [row ''/u/r/tree/main/lib/a'' ''a'', row ''/u/r/tree/main/lib/b'' ''b'']"

definition lib_page :: Node where
  "lib_page = page [row ''/u/r/blob/main/lib/x.go'' ''x.go'']"

definition lib_site :: web where
  "lib_site url =
     (if url = repo_url then Inr two_rows_page
      else if url = lib_url then Inr lib_page
      else Inl FatalFetch)"

definition lib_tree :: dtree where
  "lib_tree = Tree repo_url [Tree lib_url [], Tree lib_url []]"

definition lib_file :: MDFile where
  "lib_file = MDFile ''https://github.com/u/r/blob/main/lib/x.go'' ''x''
                (MDDir ''lib'' ''https://github.com/u/r/blob/main/lib'')"

text \<open>
  Two files of a directory \<^verbatim>\<open>a\<close>, one in the repository \<^verbatim>\<open>u/r\<close> and one in \<^verbatim>\<open>u/q\<close>, as
  \<^verbatim>\<open>CheckLink\<close> of package main returns them.
\<close>

definition file_in_r :: MDFile where
  "file_in_r = MDFile ''https://github.com/u/r/blob/main/a/x.go'' ''x''
                 (MDDir ''a'' ''https://github.com/u/r/blob/main/a'')"

definition file_in_q :: MDFile where
  "file_in_q = MDFile ''https://github.com/u/q/blob/main/a/y.go'' ''y''
                 (MDDir ''a'' ''https://github.com/u/q/blob/main/a'')"

definition docs_tree :: dtree where
  "docs_tree = Tree repo_url [Tree docs_url []]"

text \<open>A page with a link that is not a row, followed by a row.\<close>

definition about_site :: web where
  "about_site url =
     (if url = repo_url
      then Inr (page [plain_anchor ''/about'' ''About'', row ''/u/r/blob/main/lib/x.go'' ''x.go''])
      else Inl FatalFetch)"

section \<open>Properties of the crawl loop\<close>

text \<open>
  A forest is a list of trees, one for each sender. The loop started with the senders of a
  forest returns, whatever the scheduler: it takes one list per node of the forest, starts
  one goroutine per node that is not a root, and collects the files of every node.
\<close>

lemma is_forest_list_all2: "is_forest extract us ts = list_all2 (is_tree extract) us ts"
  by (induction us arbitrary: ts) (case_tac ts; simp)+

lemma forest_urls_append: "forest_urls (ts @ ws) = forest_urls ts @ forest_urls ws"
  by (induction ts) auto

lemma Crawl_range_eq:
  "Crawl_range list st =
     st\<lparr>n := n st + int (length (dirs_of list)),
        senders := senders st @ dirs_of list,
        started := started st @ dirs_of list,
        results := results st @ files_of list\<rparr>"
  by (induction list st rule: Crawl_range.induct) auto

lemma mset_remove_nth:
  "i < length xs \<Longrightarrow> mset xs = mset (take i xs @ drop (Suc i) xs) + {#xs ! i#}"
proof -
  assume "i < length xs"
  then have "xs = take i xs @ xs ! i # drop (Suc i) xs" by (rule id_take_nth_drop)
  then have "mset xs = mset (take i xs @ xs ! i # drop (Suc i) xs)" by simp
  then show ?thesis by simp
qed

lemma Crawl_loop_forest:
  assumes "is_forest extract (senders st) ts"
    and "n st = int (length (senders st))"
  shows "\<exists>st'. Crawl_loop extract sched k st = Some (Inr st') \<and> n st' = 0 \<and> senders st' = [] \<and>
           mset (fetched st') = mset (fetched st) + mset (forest_urls ts) \<and>
           mset (started st') + mset (senders st) = mset (started st) + mset (forest_urls ts) \<and>
           mset (results st') = mset (results st) + mset (concat (map (files_at extract) (forest_urls ts)))"
  using assms
proof (induction "length (forest_urls ts)" arbitrary: ts st k rule: less_induct)
  case less
  define us where "us = senders st"
  have all2: "list_all2 (is_tree extract) us ts"
    using less.prems(1) by (simp add: us_def is_forest_list_all2)
  then have len: "length ts = length us" by (simp add: list_all2_lengthD)
  show ?case
  proof (cases "us = []")
    case True
    then have "ts = []" using len by simp
    moreover have "n st = 0" using True less.prems(2) by (simp add: us_def)
    moreover have "Crawl_loop extract sched k st = Some (Inr st)"
      using \<open>n st = 0\<close> by (subst Crawl_loop.simps) simp
    ultimately show ?thesis using True by (simp add: us_def)
  next
    case False
    define i where "i = sched k mod length us"
    have i: "i < length us" using False by (simp add: i_def)
    have npos: "n st > 0" using False less.prems(2) by (simp add: us_def)
    have ti: "is_tree extract (us ! i) (ts ! i)" using all2 i by (simp add: list_all2_nthD)
    obtain u cs where tsi: "ts ! i = Tree u cs" by (cases "ts ! i")
    from ti tsi obtain list where u: "u = us ! i" and ex: "extract (us ! i) = Inr list"
      and sub: "is_forest extract (dirs_of list) cs"
      by (auto split: sum.splits)
    define st1 where "st1 = Crawl_range list
        (st\<lparr>senders := take i us @ drop (Suc i) us, fetched := fetched st @ [us ! i]\<rparr>)"
    define st2 where "st2 = st1\<lparr>n := n st1 - 1\<rparr>"
    define ts2 where "ts2 = (take i ts @ drop (Suc i) ts) @ cs"
    have step: "Crawl_loop extract sched k st = Crawl_loop extract sched (Suc k) st2"
      using npos False ex
      by (subst Crawl_loop.simps) (simp add: Let_def us_def[symmetric] i_def[symmetric] st1_def st2_def)
    have senders2: "senders st2 = (take i us @ drop (Suc i) us) @ dirs_of list"
      by (simp add: st2_def st1_def Crawl_range_eq)
    have fetched2: "fetched st2 = fetched st @ [us ! i]"
      by (simp add: st2_def st1_def Crawl_range_eq)
    have started2: "started st2 = started st @ dirs_of list"
      by (simp add: st2_def st1_def Crawl_range_eq)
    have results2: "results st2 = results st @ files_of list"
      by (simp add: st2_def st1_def Crawl_range_eq)
    have n2: "n st2 = int (length (senders st2))"
      using i less.prems(2) by (simp add: st2_def st1_def Crawl_range_eq us_def[symmetric])
    have forest2: "is_forest extract (senders st2) ts2"
      unfolding senders2 ts2_def is_forest_list_all2
      using all2 sub
      by (intro list_all2_appendI list_all2_takeI list_all2_dropI) (simp_all add: is_forest_list_all2)
    have "ts = take i ts @ ts ! i # drop (Suc i) ts"
      using i len by (simp add: id_take_nth_drop)
    then have "forest_urls ts = forest_urls (take i ts @ Tree (us ! i) cs # drop (Suc i) ts)"
      using tsi u by simp
    then have urls: "forest_urls ts =
        forest_urls (take i ts) @ (us ! i # forest_urls cs) @ forest_urls (drop (Suc i) ts)"
      by (simp add: forest_urls_append)
    have urls2: "forest_urls ts2 =
        forest_urls (take i ts) @ forest_urls (drop (Suc i) ts) @ forest_urls cs"
      by (simp add: ts2_def forest_urls_append)
    have smaller: "length (forest_urls ts2) < length (forest_urls ts)"
      by (simp add: urls urls2)
    have murls: "mset (forest_urls ts) = mset (forest_urls ts2) + {#us ! i#}"
      by (simp add: urls urls2)
    have mfiles: "mset (concat (map (files_at extract) (forest_urls ts))) =
        mset (files_of list) + mset (concat (map (files_at extract) (forest_urls ts2)))"
      by (simp add: urls urls2 files_at_def ex)
    have mus: "mset us = mset (take i us @ drop (Suc i) us) + {#us ! i#}"
      using i by (rule mset_remove_nth)
    from less.hyps[OF smaller forest2 n2, of "Suc k"]
    obtain st' where run: "Crawl_loop extract sched (Suc k) st2 = Some (Inr st')"
      and fin: "n st' = 0" "senders st' = []"
      and f: "mset (fetched st') = mset (fetched st2) + mset (forest_urls ts2)"
      and s: "mset (started st') + mset (senders st2) = mset (started st2) + mset (forest_urls ts2)"
      and r: "mset (results st') = mset (results st2) + mset (concat (map (files_at extract) (forest_urls ts2)))"
      by blast
    have f': "mset (fetched st') = mset (fetched st) + mset (forest_urls ts)"
      using f by (simp add: fetched2 murls)
    have "mset (started st') + mset (take i us @ drop (Suc i) us) + mset (dirs_of list)
            = mset (started st) + mset (dirs_of list) + mset (forest_urls ts2)"
      using s by (simp add: senders2 started2 ac_simps)
    then have "mset (started st') + mset (take i us @ drop (Suc i) us)
            = mset (started st) + mset (forest_urls ts2)"
      by (simp add: ac_simps)
    then have "mset (started st') + mset (take i us @ drop (Suc i) us) + {#us ! i#}
            = mset (started st) + mset (forest_urls ts2) + {#us ! i#}"
      by simp
    then have s': "mset (started st') + mset (senders st) = mset (started st) + mset (forest_urls ts)"
      using mus murls by (simp add: us_def[symmetric] ac_simps)
    have r': "mset (results st') = mset (results st) + mset (concat (map (files_at extract) (forest_urls ts)))"
      using r by (simp add: results2 mfiles)
    show ?thesis using step run fin f' s' r' by simp
  qed
qed

lemma Crawl_loop_tree:
  assumes "is_tree extract url t"
  shows "\<exists>st'. Crawl_loop extract sched 0 (Crawl_init url) = Some (Inr st') \<and> n st' = 0 \<and>
           senders st' = [] \<and>
           mset (fetched st') = mset (tree_urls t) \<and>
           mset (started st') = mset (tree_urls t) \<and>
           mset (results st') = mset (concat (map (files_at extract) (tree_urls t)))"
proof -
  have "is_forest extract (senders (Crawl_init url)) [t]"
    using assms by (simp add: Crawl_init_def)
  moreover have "n (Crawl_init url) = int (length (senders (Crawl_init url)))"
    by (simp add: Crawl_init_def)
  ultimately obtain st' where
    "Crawl_loop extract sched 0 (Crawl_init url) = Some (Inr st')" and "n st' = 0" and "senders st' = []"
    and "mset (fetched st') = mset (fetched (Crawl_init url)) + mset (forest_urls [t])"
    and "mset (started st') + mset (senders (Crawl_init url)) =
       mset (started (Crawl_init url)) + mset (forest_urls [t])"
    and "mset (results st') = mset (results (Crawl_init url)) +
       mset (concat (map (files_at extract) (forest_urls [t])))"
    using Crawl_loop_forest[of "extract" "Crawl_init url" "[t]" sched 0] by blast
  then show ?thesis by (auto simp: Crawl_init_def)
qed

text \<open>
  Both packages run this loop; they differ in the \<^verbatim>\<open>Extract\<close> they call. Whenever the
  directory links that \<^verbatim>\<open>Extract\<close> returns unfold to a finite tree, \<^verbatim>\<open>Crawl\<close> returns with the
  counter at 0 and has started one goroutine for each node of that tree.
\<close>

lemma main_Crawl_returns:
  assumes "is_tree (\<lambda>v. main_Extract web v extension ignoreDirs) url t"
  shows "\<exists>st'. main_Crawl_run web sched url extension ignoreDirs = Some (Inr st') \<and> n st' = 0 \<and>
           senders st' = [] \<and> length (started st') = length (tree_urls t)"
proof -
  from Crawl_loop_tree[OF assms, of sched]
  obtain st' where "main_Crawl_run web sched url extension ignoreDirs = Some (Inr st')"
    and "n st' = 0" and "senders st' = []" and "mset (started st') = mset (tree_urls t)"
    unfolding main_Crawl_run_def by blast
  moreover from this have "length (started st') = length (tree_urls t)"
    by (metis size_mset)
  ultimately show ?thesis by blast
qed

lemma commands_Crawl_returns:
  assumes "is_tree (\<lambda>v. commands_Extract web v extension ignoreDirs) url t"
  shows "\<exists>st'. commands_Crawl_run web sched url extension ignoreDirs = Some (Inr st') \<and> n st' = 0 \<and>
           senders st' = [] \<and> length (started st') = length (tree_urls t)"
proof -
  from Crawl_loop_tree[OF assms, of sched]
  obtain st' where "commands_Crawl_run web sched url extension ignoreDirs = Some (Inr st')"
    and "n st' = 0" and "senders st' = []" and "mset (started st') = mset (tree_urls t)"
    unfolding commands_Crawl_run_def by blast
  moreover from this have "length (started st') = length (tree_urls t)"
    by (metis size_mset)
  ultimately show ?thesis by blast
qed

section \<open>Termination of the crawl (C1)\<close>

text \<open>
  On the repository with the directory \<^verbatim>\<open>docs\<close>, package commands fetches the root and
  \<^verbatim>\<open>docs\<close> and returns with the counter at 0.
\<close>

lemma commands_Crawl_docs_site:
  "\<exists>st'. commands_Crawl_run docs_site sched repo_url ''.md'' [] = Some (Inr st') \<and> n st' = 0 \<and>
         senders st' = [] \<and> length (started st') = 2"
proof -
  have "is_tree (\<lambda>v. commands_Extract docs_site v ''.md'' []) repo_url docs_tree"
    by code_simp
  from commands_Crawl_returns[OF this, of sched] show ?thesis
    by (simp add: docs_tree_def numeral_2_eq_2)
qed

text \<open>
  Package main gives a directory link the URL of the directory above it (\<open>dirhref\<close>, the
  link without its last segment). From the root it therefore fetches the listing of the
  branch, which is the root listing again and holds the same link: the loop has one sender
  and the counter 1 for ever.
\<close>

lemma docs_root_list:
  "main_Extract docs_site repo_url ''.md'' [] =
     Inr [DirElement (MDDir ''tree/main'' branch_url),
          FileElement (MDFile ''https://github.com/u/r/blob/main/readme.md'' ''readme''
                        (MDDir [] ''https://github.com/u/r/blob/main''))]"
  by code_simp

lemma docs_branch_list:
  "main_Extract docs_site branch_url ''.md'' [] =
     Inr [DirElement (MDDir ''tree/main'' branch_url),
          FileElement (MDFile ''https://github.com/u/r/blob/main/readme.md'' ''readme''
                        (MDDir [] ''https://github.com/u/r/blob/main''))]"
  by code_simp

lemma main_loop_on_docs_site:
  assumes run: "Crawl_loop e sched k st = Some y"
  shows "e = (\<lambda>u. main_Extract docs_site u ''.md'' []) \<longrightarrow> n st = 1 \<longrightarrow>
         (senders st = [repo_url] \<or> senders st = [branch_url]) \<longrightarrow> False"
proof (rule Crawl_loop.raw_induct[where P = "\<lambda>e sched k st y.
         e = (\<lambda>u. main_Extract docs_site u ''.md'' []) \<longrightarrow> n st = 1 \<longrightarrow>
         (senders st = [repo_url] \<or> senders st = [branch_url]) \<longrightarrow> False", OF _ run], goal_cases)
  case (1 loop e sched k st y)
  show ?case
  proof (intro impI)
    assume e: "e = (\<lambda>u. main_Extract docs_site u ''.md'' [])"
      and n1: "n st = 1"
      and s: "senders st = [repo_url] \<or> senders st = [branch_url]"
    define list where "list =
       [DirElement (MDDir ''tree/main'' branch_url),
        FileElement (MDFile ''https://github.com/u/r/blob/main/readme.md'' ''readme''
                      (MDDir [] ''https://github.com/u/r/blob/main''))]"
    have ex: "e (senders st ! 0) = Inr list"
      using s docs_root_list docs_branch_list by (auto simp: e list_def)
    have one: "length (senders st) = 1" "senders st \<noteq> []" using s by auto
    define st1 where "st1 = Crawl_range list
        (st\<lparr>senders := take 0 (senders st) @ drop (Suc 0) (senders st),
            fetched := fetched st @ [senders st ! 0]\<rparr>)"
    define st2 where "st2 = st1\<lparr>n := n st1 - 1\<rparr>"
    have "loop e sched (Suc k) st2 = Some y"
      using 1(2) n1 one ex by (simp add: Let_def st2_def st1_def)
    moreover have "n st2 = 1" using n1 by (simp add: st2_def st1_def list_def)
    moreover have "senders st2 = [branch_url]" using one by (simp add: st2_def st1_def list_def)
    ultimately show False using 1(1)[of e sched "Suc k" st2 y] e by simp
  qed
qed

text \<open>
  Claim C1: for every finite, acyclic directory tree \<^verbatim>\<open>Crawl\<close> terminates with the counter at
  0, having started one fetch per directory. Package main does not: on the repository whose
  root holds \<^verbatim>\<open>readme.md\<close> and the directory \<^verbatim>\<open>docs\<close>, its crawl never returns, whatever the
  order in which the lists arrive.
\<close>

theorem main_Crawl_never_returns:
  "main_Extract docs_site repo_url ''.md'' [] =
     Inr [DirElement (MDDir ''tree/main'' branch_url),
          FileElement (MDFile ''https://github.com/u/r/blob/main/readme.md'' ''readme''
                        (MDDir [] ''https://github.com/u/r/blob/main''))] \<and>
   main_Crawl_run docs_site sched repo_url ''.md'' [] = None"
proof -
  have "main_Crawl_run docs_site sched repo_url ''.md'' [] = None"
  proof (cases "main_Crawl_run docs_site sched repo_url ''.md'' []")
    case None
    then show ?thesis .
  next
    case (Some y)
    then have "Crawl_loop (\<lambda>u. main_Extract docs_site u ''.md'' []) sched 0 (Crawl_init repo_url) = Some y"
      by (simp add: main_Crawl_run_def)
    from main_loop_on_docs_site[OF this] have False
      by (simp add: Crawl_init_def)
    then show ?thesis ..
  qed
  with docs_root_list show ?thesis by simp
qed

section \<open>No deduplication (C8)\<close>

lemma count_list_only_at:
  assumes "\<forall>v\<in>set xs. v \<noteq> u \<longrightarrow> f \<notin> set (g v)"
  shows "count_list (concat (map g xs)) f = count_list xs u * count_list (g u) f"
  using assms by (induction xs) (auto simp: count_list_0_iff)

lemma Crawl_loop_once_per_path:
  assumes "is_tree E url t"
    and "count_list (tree_urls t) u = k"
    and "\<forall>v\<in>set (tree_urls t). v \<noteq> u \<longrightarrow> f \<notin> set (files_at E v)"
  shows "\<exists>st'. Crawl_loop E sched 0 (Crawl_init url) = Some (Inr st') \<and>
           count_list (fetched st') u = k \<and>
           count_list (results st') f = k * count_list (files_at E u) f"
proof -
  from Crawl_loop_tree[of E url t sched] assms(1)
  obtain st' where run: "Crawl_loop E sched 0 (Crawl_init url) = Some (Inr st')"
    and f: "mset (fetched st') = mset (tree_urls t)"
    and r: "mset (results st') = mset (concat (map (files_at E) (tree_urls t)))"
    by blast
  have "count (mset (fetched st')) u = count (mset (tree_urls t)) u" using f by simp
  then have cf: "count_list (fetched st') u = k" using assms(2) by (simp add: count_mset)
  have "count (mset (results st')) f = count (mset (concat (map (files_at E) (tree_urls t)))) f"
    using r by simp
  then have "count_list (results st') f = count_list (concat (map (files_at E) (tree_urls t))) f"
    by (simp add: count_mset)
  also have "\<dots> = count_list (tree_urls t) u * count_list (files_at E u) f"
    using assms(3) by (rule count_list_only_at)
  finally have cr: "count_list (results st') f = k * count_list (files_at E u) f"
    using assms(2) by simp
  show ?thesis using run cf cr by blast
qed

lemma commands_Crawl_fetches_once_per_path:
  assumes "is_tree (\<lambda>v. commands_Extract web v extension ignoreDirs) url t"
    and "count_list (tree_urls t) u = k"
    and "\<forall>v\<in>set (tree_urls t). v \<noteq> u \<longrightarrow>
           f \<notin> set (files_at (\<lambda>v. commands_Extract web v extension ignoreDirs) v)"
  shows "\<exists>st'. commands_Crawl_run web sched url extension ignoreDirs = Some (Inr st') \<and>
           commands_Crawl web sched url extension ignoreDirs = Some (Inr (results st')) \<and>
           count_list (fetched st') u = k \<and>
           count_list (results st') f =
             k * count_list (files_at (\<lambda>v. commands_Extract web v extension ignoreDirs) u) f"
proof -
  from Crawl_loop_once_per_path[OF assms, of sched]
  obtain st' where "commands_Crawl_run web sched url extension ignoreDirs = Some (Inr st')"
    and "count_list (fetched st') u = k"
    and "count_list (results st') f =
           k * count_list (files_at (\<lambda>v. commands_Extract web v extension ignoreDirs) u) f"
    unfolding commands_Crawl_run_def by blast
  then show ?thesis by (auto simp: commands_Crawl_def)
qed

text \<open>
  Claim C8: a directory that stands \<open>k\<close> times in the crawled tree is fetched \<open>k\<close> times, and
  a file that only its page lists is in the result \<open>k\<close> times for each time the page lists
  it; nothing is deduplicated. The order of arrival does not matter.
\<close>

theorem Crawl_fetches_once_per_path:
  assumes "is_tree (\<lambda>v. main_Extract web v extension ignoreDirs) url t"
    and "count_list (tree_urls t) u = k"
    and "\<forall>v\<in>set (tree_urls t). v \<noteq> u \<longrightarrow>
           f \<notin> set (files_at (\<lambda>v. main_Extract web v extension ignoreDirs) v)"
  shows "\<exists>st'. main_Crawl_run web sched url extension ignoreDirs = Some (Inr st') \<and>
           main_Crawl web sched url extension ignoreDirs = Some (Inr (results st')) \<and>
           count_list (fetched st') u = k \<and>
           count_list (results st') f =
             k * count_list (files_at (\<lambda>v. main_Extract web v extension ignoreDirs) u) f"
proof -
  from Crawl_loop_once_per_path[OF assms, of sched]
  obtain st' where "main_Crawl_run web sched url extension ignoreDirs = Some (Inr st')"
    and "count_list (fetched st') u = k"
    and "count_list (results st') f =
           k * count_list (files_at (\<lambda>v. main_Extract web v extension ignoreDirs) u) f"
    unfolding main_Crawl_run_def by blast
  then show ?thesis by (auto simp: main_Crawl_def)
qed

theorem Crawl_fetches_once_per_path_witness:
  "is_tree (\<lambda>v. main_Extract lib_site v ''.go'' []) repo_url lib_tree \<and>
   count_list (tree_urls lib_tree) lib_url = 2 \<and>
   (\<exists>st'. main_Crawl_run lib_site (\<lambda>k. 0) repo_url ''.go'' [] = Some (Inr st') \<and>
      main_Crawl lib_site (\<lambda>k. 0) repo_url ''.go'' [] = Some (Inr (results st')) \<and>
      count_list (fetched st') lib_url = 2 \<and>
      count_list (results st') lib_file = 2)"
proof -
  have h1: "is_tree (\<lambda>v. main_Extract lib_site v ''.go'' []) repo_url lib_tree"
    by code_simp
  have h2: "count_list (tree_urls lib_tree) lib_url = 2"
    by code_simp
  have h3: "\<forall>v\<in>set (tree_urls lib_tree). v \<noteq> lib_url \<longrightarrow>
      lib_file \<notin> set (files_at (\<lambda>v. main_Extract lib_site v ''.go'' []) v)"
    by code_simp
  have h4: "count_list (files_at (\<lambda>v. main_Extract lib_site v ''.go'' []) lib_url) lib_file = 1"
    by code_simp
  from Crawl_fetches_once_per_path[OF h1 h2 h3, of "\<lambda>k. 0"] h4
  have "\<exists>st'. main_Crawl_run lib_site (\<lambda>k. 0) repo_url ''.go'' [] = Some (Inr st') \<and>
      main_Crawl lib_site (\<lambda>k. 0) repo_url ''.go'' [] = Some (Inr (results st')) \<and>
      count_list (fetched st') lib_url = 2 \<and>
      count_list (results st') lib_file = 2"
    by simp
  with h1 h2 show ?thesis by blast
qed


section \<open>Grouping (C6)\<close>

lemma GroupByDir_range_lookup:
  "GroupByDir_range files grouped k =
     (if filter (\<lambda>f. MDFile.dir f = k) files = [] then grouped k
      else Some ((case grouped k of None \<Rightarrow> [] | Some l \<Rightarrow> l) @ filter (\<lambda>f. MDFile.dir f = k) files))"
  by (induction files arbitrary: grouped) auto

lemma GroupByDir_lookup:
  "GroupByDir files k =
     (if filter (\<lambda>f. MDFile.dir f = k) files = [] then None
      else Some (filter (\<lambda>f. MDFile.dir f = k) files))"
  by (simp add: GroupByDir_def GroupByDir_range_lookup)

text \<open>
  Claim C6, as the code has it: \<^verbatim>\<open>GroupByDir\<close> puts two files of its input in the same group
  if and only if their parent directories are the same struct value, equal in name and in
  href.
\<close>

theorem GroupByDir_same_group_iff:
  assumes "f1 \<in> set files" and "f2 \<in> set files"
  shows "(\<exists>k l. GroupByDir files k = Some l \<and> f1 \<in> set l \<and> f2 \<in> set l) \<longleftrightarrow>
         (MDDir.name (MDFile.dir f1) = MDDir.name (MDFile.dir f2) \<and>
          MDDir.href (MDFile.dir f1) = MDDir.href (MDFile.dir f2))"
proof -
  have "(\<exists>k l. GroupByDir files k = Some l \<and> f1 \<in> set l \<and> f2 \<in> set l) \<longleftrightarrow>
        MDFile.dir f1 = MDFile.dir f2"
    using assms by (auto simp: GroupByDir_lookup filter_empty_conv split: if_splits)
  moreover have "MDFile.dir f1 = MDFile.dir f2 \<longleftrightarrow>
        (MDDir.name (MDFile.dir f1) = MDDir.name (MDFile.dir f2) \<and>
         MDDir.href (MDFile.dir f1) = MDDir.href (MDFile.dir f2))"
    by (auto intro: MDDir.expand)
  ultimately show ?thesis by simp
qed

theorem GroupByDir_same_group_iff_witness:
  "file_in_r \<in> set [file_in_r, file_in_q, file_in_r] \<and>
   ((\<exists>k l. GroupByDir [file_in_r, file_in_q, file_in_r] k = Some l \<and> file_in_r \<in> set l \<and> file_in_r \<in> set l) \<longleftrightarrow>
    (MDDir.name (MDFile.dir file_in_r) = MDDir.name (MDFile.dir file_in_r) \<and>
     MDDir.href (MDFile.dir file_in_r) = MDDir.href (MDFile.dir file_in_r)))"
proof -
  have h: "file_in_r \<in> set [file_in_r, file_in_q, file_in_r]" by simp
  from GroupByDir_same_group_iff[OF h h] h show ?thesis by blast
qed

text \<open>
  The claim as stated, that the names alone decide, fails on the two files of the
  directories named \<^verbatim>\<open>a\<close> in two repositories: package main classifies the two rows as these
  files, the names of their parents are equal, and each file is alone in its group.
\<close>

theorem GroupByDir_same_name_two_groups:
  "main_CheckLink (row ''/u/r/blob/main/a/x.go'' ''x.go'') ''.go'' [] = Inr (FileElement file_in_r) \<and>
   main_CheckLink (row ''/u/q/blob/main/a/y.go'' ''y.go'') ''.go'' [] = Inr (FileElement file_in_q) \<and>
   MDDir.name (MDFile.dir file_in_r) = MDDir.name (MDFile.dir file_in_q) \<and>
   MDFile.dir file_in_r \<noteq> MDFile.dir file_in_q \<and>
   GroupByDir [file_in_r, file_in_q] (MDFile.dir file_in_r) = Some [file_in_r] \<and>
   GroupByDir [file_in_r, file_in_q] (MDFile.dir file_in_q) = Some [file_in_q]"
proof -
  have "main_CheckLink (row ''/u/r/blob/main/a/x.go'' ''x.go'') ''.go'' [] = Inr (FileElement file_in_r)"
    by code_simp
  moreover have "main_CheckLink (row ''/u/q/blob/main/a/y.go'' ''y.go'') ''.go'' [] = Inr (FileElement file_in_q)"
    by code_simp
  moreover have "MDFile.dir file_in_r \<noteq> MDFile.dir file_in_q"
    by (simp add: file_in_r_def file_in_q_def)
  ultimately show ?thesis
    by (simp add: GroupByDir_lookup) (simp add: file_in_r_def file_in_q_def)
qed


section \<open>The regular expressions of the program\<close>

lemma matchDir_compiles:
  "regexp_MustCompile matchDir_pattern =
     Inr [Plus AnyCharNotNL, One (Lit CHR ''/''), One (Lit CHR ''t''), One (Lit CHR ''r''),
          One (Lit CHR ''e''), One (Lit CHR ''e''), One (Lit CHR ''/''), Plus AnyCharNotNL]"
  by code_simp

text \<open>
  A pattern of plain characters compiles to its characters, and it is found in a text
  exactly when it occurs in it.
\<close>

lemma plain_not_operator: "plain c \<Longrightarrow> c \<noteq> CHR ''+'' \<and> c \<noteq> CHR ''.'' \<and> c \<noteq> CHR ''$''"
  by (auto simp: plain_def meta_chars_def)

lemma parse_plain:
  "list_all plain p \<Longrightarrow> parse p stack = Some (rev stack @ map (\<lambda>c. One (Lit c)) p)"
  by (induction p arbitrary: stack) (auto dest: plain_not_operator)

lemma regexp_Compile_plain:
  "list_all plain p \<Longrightarrow> regexp_Compile p = Regexp (map (\<lambda>c. One (Lit c)) p)"
  by (auto simp: regexp_Compile_def parse_plain in_fragment_def list_all_iff)

lemma item_step_Lit: "set (item_step (One (Lit c)) s) = {t. s = c # t}"
  by (cases s) auto

lemma run_literals:
  "run (map (\<lambda>c. One (Lit c)) p) rests \<longleftrightarrow> (\<exists>r\<in>set rests. \<exists>t. r = p @ t)"
proof (induction p arbitrary: rests)
  case Nil
  then show ?case by (cases rests) auto
next
  case (Cons c p)
  show ?case by (auto simp: Cons.IH item_step_Lit)
qed

lemma search_iff: "search p s \<longleftrightarrow> (\<exists>u t. s = u @ t \<and> run p [t])"
proof (induction s)
  case Nil
  then show ?case by simp
next
  case (Cons x xs)
  show ?case
  proof
    assume "search p (x # xs)"
    then consider "run p [x # xs]" | "search p xs" by auto
    then show "\<exists>u t. x # xs = u @ t \<and> run p [t]"
    proof cases
      case 1
      then have "x # xs = [] @ (x # xs) \<and> run p [x # xs]" by simp
      then show ?thesis by blast
    next
      case 2
      then obtain u t where "xs = u @ t" "run p [t]" using Cons.IH by blast
      then have "x # xs = (x # u) @ t \<and> run p [t]" by simp
      then show ?thesis by blast
    qed
  next
    assume "\<exists>u t. x # xs = u @ t \<and> run p [t]"
    then obtain u t where ut: "x # xs = u @ t" "run p [t]" by blast
    show "search p (x # xs)"
    proof (cases u)
      case Nil
      then have "run p [x # xs]" using ut by simp
      then show ?thesis by simp
    next
      case (Cons y ys)
      then have "xs = ys @ t" using ut by simp
      then show ?thesis using ut Cons.IH by auto
    qed
  qed
qed

lemma dot_free_literals: "dot_free (map (\<lambda>c. One (Lit c)) p)"
  by (auto simp: dot_free_def)

lemma regexp_Match_plain:
  "list_all plain p \<Longrightarrow> regexp_Match p s = Inr (Some (\<exists>u v. s = u @ p @ v))"
proof -
  assume "list_all plain p"
  then have "regexp_Match p s = Inr (Some (search (map (\<lambda>c. One (Lit c)) p) s))"
    by (simp add: regexp_Match_def regexp_Compile_plain Match_def dot_free_literals)
  moreover have "search (map (\<lambda>c. One (Lit c)) p) s \<longleftrightarrow> (\<exists>u v. s = u @ p @ v)"
    by (auto simp: search_iff run_literals)
  ultimately show ?thesis by simp
qed

section \<open>Names of directories and files (C2)\<close>

text \<open>
  Claim C2: a row for \<^verbatim>\<open>.../tree/main/a/b\<close> is a directory named \<^verbatim>\<open>a/b\<close>, and a row for
  \<^verbatim>\<open>.../blob/main/a/b/file.go\<close> with the extension \<^verbatim>\<open>.go\<close> is a file named \<^verbatim>\<open>file\<close> whose parent
  is named \<^verbatim>\<open>a/b\<close>. The files are as claimed in both packages. The directory is named
  \<^verbatim>\<open>tree/main/a\<close> by package main (segments 5 up to the last but one) and \<^verbatim>\<open>main/a/b\<close> by
  package commands (segments 6 to the end), where the file branch starts at segment 7.
\<close>

theorem CheckLink_names:
  "main_CheckLink (row ''/u/r/tree/main/a/b'' ''b'') ''.go'' [] =
     Inr (DirElement (MDDir ''tree/main/a'' ''https://github.com/u/r/tree/main/a'')) \<and>
   commands_CheckLink (row ''/u/r/tree/main/a/b'' ''b'') ''.go'' [] =
     Inr (DirElement (MDDir ''main/a/b'' ''https://github.com/u/r/tree/main/a/b'')) \<and>
   main_CheckLink (row ''/u/r/blob/main/a/b/file.go'' ''file.go'') ''.go'' [] =
     Inr (FileElement (MDFile ''https://github.com/u/r/blob/main/a/b/file.go'' ''file''
            (MDDir ''a/b'' ''https://github.com/u/r/blob/main/a/b''))) \<and>
   commands_CheckLink (row ''/u/r/blob/main/a/b/file.go'' ''file.go'') ''.go'' [] =
     Inr (FileElement (MDFile ''https://github.com/u/r/blob/main/a/b/file.go'' ''file''
            (MDDir ''a/b'' [])))"
  by code_simp


section \<open>The ignore list (C3)\<close>

text \<open>
  With plain entries and a plain directory name, \<^verbatim>\<open>IsContains\<close> of package commands
  answers whether an entry occurs in the directory name, and \<^verbatim>\<open>IsContains\<close> of package main
  whether the directory name occurs in an entry.
\<close>

lemma commands_IsContains_loop_plain:
  "list_all (list_all plain) es \<Longrightarrow>
   commands_IsContains_loop es d = Inr (\<exists>e\<in>set es. \<exists>u v. d = u @ e @ v)"
  by (induction es) (auto simp: regexp_Match_plain)

lemma commands_IsContains_plain:
  "list_all (list_all plain) es \<Longrightarrow>
   commands_IsContains es d = Inr (\<exists>e\<in>set es. \<exists>u v. d = u @ e @ v)"
  by (cases es) (simp_all add: commands_IsContains_def commands_IsContains_loop_plain del: commands_IsContains_loop.simps)

lemma main_IsContains_plain:
  "list_all plain d \<Longrightarrow>
   main_IsContains es d = Inr (\<exists>e\<in>set es. \<exists>u v. e = u @ d @ v)"
  by (induction es) (auto simp: regexp_Match_plain)

lemma commands_CheckLink_ignored:
  assumes "regexp_MustCompile (matchFile_pattern extension) = Inr mf"
    and "regexp_MustCompile matchDir_pattern = Inr md"
    and "commands_attrs mf md node (Attr node) locals0 = Inr st"
    and "list_all (list_all plain) ignoreDirs"
    and "e \<in> set ignoreDirs" and "dirname st = u @ e @ v"
  shows "commands_CheckLink node extension ignoreDirs = Inr NilElement"
proof -
  have "commands_IsContains ignoreDirs (dirname st) = Inr True"
    using assms(4-6) by (auto simp: commands_IsContains_plain)
  then show ?thesis using assms(1-3) by (simp add: commands_CheckLink_def)
qed

text \<open>
  Claim C3: a link whose directory name contains an entry of the ignore list is absent.
  With the list \<^verbatim>\<open>["vendor"]\<close>, package main keeps the file of \<^verbatim>\<open>vendor/sub\<close> and the directory
  link named \<^verbatim>\<open>tree/main/vendor\<close>; package commands discards both rows.
\<close>

theorem main_CheckLink_keeps_vendor:
  "main_CheckLink (row ''/u/r/blob/main/vendor/sub/x.go'' ''x.go'') ''.go'' [''vendor''] =
     Inr (FileElement (MDFile ''https://github.com/u/r/blob/main/vendor/sub/x.go'' ''x''
            (MDDir ''vendor/sub'' ''https://github.com/u/r/blob/main/vendor/sub''))) \<and>
   main_CheckLink (row ''/u/r/tree/main/vendor/pkg'' ''pkg'') ''.go'' [''vendor''] =
     Inr (DirElement (MDDir ''tree/main/vendor'' ''https://github.com/u/r/tree/main/vendor'')) \<and>
   commands_CheckLink (row ''/u/r/blob/main/vendor/sub/x.go'' ''x.go'') ''.go'' [''vendor''] = Inr NilElement \<and>
   commands_CheckLink (row ''/u/r/tree/main/vendor/pkg'' ''pkg'') ''.go'' [''vendor''] = Inr NilElement"
  by code_simp


section \<open>A row without a label (C4)\<close>

text \<open>
  In both packages the branch for \<^verbatim>\<open>href\<close> reads \<^verbatim>\<open>n.FirstChild.Data\<close> without a test: a node
  with an \<^verbatim>\<open>href\<close> attribute and no child panics.
\<close>

lemma main_attrs_no_child:
  "Children node = [] \<Longrightarrow> \<exists>a\<in>set as. Key a = ''href'' \<Longrightarrow>
   main_attrs mf md node as st = Inl PanicNilDereference"
  by (induction as arbitrary: st) (auto simp: main_href_def FirstChild_def)

lemma commands_attrs_no_child:
  "Children node = [] \<Longrightarrow> \<exists>a\<in>set as. Key a = ''href'' \<Longrightarrow>
   commands_attrs mf md node as st = Inl PanicNilDereference"
  by (induction as arbitrary: st) (auto simp: commands_href_def FirstChild_def)

lemma CheckLink_no_child_panics:
  assumes "regexp_MustCompile (matchFile_pattern extension) = Inr mf"
    and "Children node = []" and "\<exists>a\<in>set (Attr node). Key a = ''href''"
  shows "main_CheckLink node extension ignoreDirs = Inl PanicNilDereference"
    and "commands_CheckLink node extension ignoreDirs = Inl PanicNilDereference"
  using assms
  by (simp_all add: main_CheckLink_def commands_CheckLink_def matchDir_compiles
      main_attrs_no_child commands_attrs_no_child)

text \<open>
  Claim C4: an anchor without a first child does not fault and is absent. Both packages
  panic on such a row.
\<close>

theorem CheckLink_no_first_child:
  "main_CheckLink (empty_row ''/u/r/tree/main/a'') ''.go'' [] = Inl PanicNilDereference \<and>
   commands_CheckLink (empty_row ''/u/r/tree/main/a'') ''.go'' [] = Inl PanicNilDereference"
  by code_simp


section \<open>The parent directory of a file (C5)\<close>

text \<open>
  Package commands never assigns \<open>dirhref\<close>: the loop over the attributes leaves it as it
  was, and every file that \<^verbatim>\<open>CheckLink\<close> returns has a parent directory with the empty href.
\<close>

lemma commands_href_dirhref:
  "commands_href mf md node v st = Inr st' \<Longrightarrow> dirhref st' = dirhref st"
  by (auto simp: commands_href_def Let_def split: option.splits sum.splits bool.splits if_splits)

lemma commands_attrs_dirhref:
  "commands_attrs mf md node as st = Inr st' \<Longrightarrow> dirhref st' = dirhref st"
proof (induction as arbitrary: st)
  case Nil
  then show ?case by simp
next
  case (Cons a as)
  then show ?case
    by (auto simp: class_case_def dest!: commands_href_dirhref split: if_splits sum.splits)
qed

lemma commands_CheckLink_dir_href:
  assumes "commands_CheckLink node extension ignoreDirs = Inr (FileElement f)"
  shows "MDDir.href (MDFile.dir f) = []"
  using assms
  by (auto simp: commands_CheckLink_def locals0_def dest!: commands_attrs_dirhref
      split: sum.splits if_splits bool.splits)

text \<open>
  Claim C5: the parent directory of every file link has a non-empty href derived from the
  URL of the file. In package commands the href of the parent of \<^verbatim>\<open>a/b/file.go\<close> is empty;
  in package main it is the URL of the file without its last segment.
\<close>

theorem commands_CheckLink_parent_href_empty:
  "commands_CheckLink (row ''/u/r/blob/main/a/b/file.go'' ''file.go'') ''.go'' [] =
     Inr (FileElement (MDFile ''https://github.com/u/r/blob/main/a/b/file.go'' ''file''
            (MDDir ''a/b'' []))) \<and>
   main_CheckLink (row ''/u/r/blob/main/a/b/file.go'' ''file.go'') ''.go'' [] =
     Inr (FileElement (MDFile ''https://github.com/u/r/blob/main/a/b/file.go'' ''file''
            (MDDir ''a/b'' ''https://github.com/u/r/blob/main/a/b'')))"
  by code_simp


section \<open>What Extract returns (C7)\<close>

text \<open>
  \<^verbatim>\<open>ForEachNode\<close> visits the nodes in pre-order. When \<^verbatim>\<open>Extract\<close> returns, package commands
  returns the results of \<^verbatim>\<open>CheckLink\<close> on the anchors that are not nil, in that order, and
  package main returns the results on all anchors.
\<close>

lemma visit_all_append:
  "visit_all f (xs @ ys) s = (case visit_all f xs s of Inl err \<Rightarrow> Inl err | Inr s' \<Rightarrow> visit_all f ys s')"
  by (induction xs arbitrary: s) (auto split: sum.splits)

lemma ForEachNode_preorder:
  "ForEachNode node f s = visit_all f (preorder node) s"
  "ForEachNode_children cs f s = visit_all f (preorder_children cs) s"
  by (induction node f s and cs f s rule: ForEachNode_ForEachNode_children.induct)
     (auto simp: visit_all_append split: sum.splits)

lemma commands_visit_all:
  "visit_all (commands_visitNode extension ignoreDirs) ns acc = Inr r \<Longrightarrow>
   (\<forall>x\<in>set (filter is_anchor ns). \<exists>link. commands_CheckLink x extension ignoreDirs = Inr link) \<and>
   r = acc @ filter (\<lambda>link. link \<noteq> NilElement)
             (map (\<lambda>x. projr (commands_CheckLink x extension ignoreDirs)) (filter is_anchor ns))"
proof (induction ns arbitrary: acc)
  case Nil
  then show ?case by simp
next
  case (Cons x ns)
  show ?case
  proof (cases "is_anchor x")
    case False
    then have "commands_visitNode extension ignoreDirs x acc = Inr acc"
      by (auto simp: commands_visitNode_def is_anchor_def)
    then show ?thesis using Cons False by simp
  next
    case True
    then obtain link where link: "commands_CheckLink x extension ignoreDirs = Inr link"
      using Cons.prems by (auto simp: commands_visitNode_def is_anchor_def split: sum.splits)
    show ?thesis
    proof (cases "link = NilElement")
      case True
      then have "commands_visitNode extension ignoreDirs x acc = Inr acc"
        using \<open>is_anchor x\<close> link by (simp add: commands_visitNode_def is_anchor_def)
      then show ?thesis using Cons \<open>is_anchor x\<close> link True by simp
    next
      case False
      then have "commands_visitNode extension ignoreDirs x acc = Inr (acc @ [link])"
        using \<open>is_anchor x\<close> link by (simp add: commands_visitNode_def is_anchor_def)
      then have "visit_all (commands_visitNode extension ignoreDirs) ns (acc @ [link]) = Inr r"
        using Cons.prems by simp
      from Cons.IH[OF this] show ?thesis using \<open>is_anchor x\<close> link False by simp
    qed
  qed
qed

lemma main_visit_all:
  "visit_all (main_visitNode extension ignoreDirs) ns acc = Inr r \<Longrightarrow>
   (\<forall>x\<in>set (filter is_anchor ns). \<exists>link. main_CheckLink x extension ignoreDirs = Inr link) \<and>
   r = acc @ map (\<lambda>x. projr (main_CheckLink x extension ignoreDirs)) (filter is_anchor ns)"
proof (induction ns arbitrary: acc)
  case Nil
  then show ?case by simp
next
  case (Cons x ns)
  show ?case
  proof (cases "is_anchor x")
    case False
    then have "main_visitNode extension ignoreDirs x acc = Inr acc"
      by (auto simp: main_visitNode_def is_anchor_def)
    then show ?thesis using Cons False by simp
  next
    case True
    then obtain link where link: "main_CheckLink x extension ignoreDirs = Inr link"
      using Cons.prems by (auto simp: main_visitNode_def is_anchor_def split: sum.splits)
    then have "main_visitNode extension ignoreDirs x acc = Inr (acc @ [link])"
      using True by (simp add: main_visitNode_def is_anchor_def)
    then have "visit_all (main_visitNode extension ignoreDirs) ns (acc @ [link]) = Inr r"
      using Cons.prems by simp
    from Cons.IH[OF this] show ?thesis using True link by simp
  qed
qed

lemma commands_Extract_non_nil:
  assumes "web url = Inr doc"
    and "commands_Extract web url extension ignoreDirs = Inr files"
  shows "files = filter (\<lambda>link. link \<noteq> NilElement)
            (map (\<lambda>x. projr (commands_CheckLink x extension ignoreDirs))
                 (filter is_anchor (preorder doc)))"
  using assms commands_visit_all[of extension ignoreDirs "preorder doc" "[]" files]
  by (simp add: commands_Extract_def ForEachNode_preorder)

lemma main_Extract_all:
  assumes "web url = Inr doc"
    and "main_Extract web url extension ignoreDirs = Inr files"
  shows "files = map (\<lambda>x. projr (main_CheckLink x extension ignoreDirs))
                 (filter is_anchor (preorder doc))"
  using assms main_visit_all[of extension ignoreDirs "preorder doc" "[]" files]
  by (simp add: main_Extract_def ForEachNode_preorder)

text \<open>
  Claim C7: \<^verbatim>\<open>Extract\<close> returns the classifier results that are not nil. On a page with a
  link that is no row, package main returns a list with nil in it; package commands
  leaves it out.
\<close>

theorem main_Extract_returns_nil:
  "main_Extract about_site repo_url ''.go'' [] = Inr [NilElement, FileElement lib_file] \<and>
   commands_Extract about_site repo_url ''.go'' [] =
     Inr [FileElement (MDFile ''https://github.com/u/r/blob/main/lib/x.go'' ''x'' (MDDir ''lib'' []))]"
  by code_simp


section \<open>The empty ignore flag (C10)\<close>

lemma search_empty: "search [] s"
  by (cases s) auto

lemma regexp_Match_empty: "regexp_Match [] e = Inr (Some True)"
  by (simp add: regexp_Match_def regexp_Compile_def Match_def dot_free_def search_empty)

lemma main_IsContains_empty_name: "elements \<noteq> [] \<Longrightarrow> main_IsContains elements [] = Inr True"
  by (cases elements) (simp_all add: regexp_Match_empty)

lemma strings_Split_nonempty: "strings_Split s c \<noteq> []"
  by (induction s) (auto simp: Let_def)

text \<open>
  Claim C10: the empty flag gives package main the list with one empty entry. If the list
  has an empty entry, \<^verbatim>\<open>IsContains\<close> of package main matches the empty directory name, so a
  link whose directory name is empty, as that of a file at the root of the repository, is
  discarded. Package commands turns the empty flag into the empty list, \<^verbatim>\<open>IsContains\<close> is
  false on it, and a row with either shape is not discarded.
\<close>

theorem empty_ignore_flag:
  "main_ignoreDirs [] = [[]] \<and>
   ([] \<in> set elements \<longrightarrow> main_IsContains elements [] = Inr True) \<and>
   (regexp_MustCompile (matchFile_pattern extension) = Inr mf \<and>
    regexp_MustCompile matchDir_pattern = Inr md \<and>
    main_attrs mf md node (Attr node) locals0 = Inr st \<and> dirname st = [] \<and> [] \<in> set elements
      \<longrightarrow> main_CheckLink node extension elements = Inr NilElement) \<and>
   commands_getIgnoreDirs [] = [] \<and>
   commands_IsContains (commands_getIgnoreDirs []) d = Inr False \<and>
   (regexp_MustCompile (matchFile_pattern extension') = Inr mf' \<and>
    regexp_MustCompile matchDir_pattern = Inr md' \<and>
    commands_attrs mf' md' node' (Attr node') locals0 = Inr st' \<and>
    hasRightStyles st' \<and> (isTrackedFile st' \<or> isDir st')
      \<longrightarrow> commands_CheckLink node' extension' (commands_getIgnoreDirs []) \<noteq> Inr NilElement)"
proof -
  have a: "main_ignoreDirs [] = [[]]" by (simp add: main_ignoreDirs_def)
  have b: "[] \<in> set elements \<longrightarrow> main_IsContains elements [] = Inr True"
    by (auto intro: main_IsContains_empty_name)
  have c: "regexp_MustCompile (matchFile_pattern extension) = Inr mf \<and>
    regexp_MustCompile matchDir_pattern = Inr md \<and>
    main_attrs mf md node (Attr node) locals0 = Inr st \<and> dirname st = [] \<and> [] \<in> set elements
      \<longrightarrow> main_CheckLink node extension elements = Inr NilElement"
    using b by (simp add: main_CheckLink_def)
  have d: "commands_getIgnoreDirs [] = []" by (simp add: commands_getIgnoreDirs_def)
  have e: "commands_IsContains (commands_getIgnoreDirs []) d = Inr False"
    by (simp add: d commands_IsContains_def)
  have f: "regexp_MustCompile (matchFile_pattern extension') = Inr mf' \<and>
    regexp_MustCompile matchDir_pattern = Inr md' \<and>
    commands_attrs mf' md' node' (Attr node') locals0 = Inr st' \<and>
    hasRightStyles st' \<and> (isTrackedFile st' \<or> isDir st')
      \<longrightarrow> commands_CheckLink node' extension' (commands_getIgnoreDirs []) \<noteq> Inr NilElement"
    by (auto simp: commands_CheckLink_def d commands_IsContains_def split: sum.splits)
  from a b c d e f show ?thesis by blast
qed


theorem empty_ignore_flag_witness:
  "main_ignoreDirs [] = [[]] \<and>
   main_IsContains (main_ignoreDirs []) [] = Inr True \<and>
   main_CheckLink (row ''/u/r/blob/main/file.go'' ''file.go'') ''.go'' (main_ignoreDirs []) = Inr NilElement \<and>
   commands_getIgnoreDirs [] = [] \<and>
   commands_CheckLink (row ''/u/r/blob/main/file.go'' ''file.go'') ''.go'' (commands_getIgnoreDirs [])
     \<noteq> Inr NilElement"
proof -
  define node where "node = row ''/u/r/blob/main/file.go'' ''file.go''"
  define mf where "mf = projr (regexp_MustCompile (matchFile_pattern ''.go''))"
  define md where "md = projr (regexp_MustCompile matchDir_pattern)"
  define st where "st = projr (main_attrs mf md node (Attr node) locals0)"
  define st' where "st' = projr (commands_attrs mf md node (Attr node) locals0)"
  have h1: "regexp_MustCompile (matchFile_pattern ''.go'') = Inr mf"
    unfolding mf_def by code_simp
  have h2: "regexp_MustCompile matchDir_pattern = Inr md"
    unfolding md_def by code_simp
  have h3: "main_attrs mf md node (Attr node) locals0 = Inr st"
    unfolding st_def mf_def md_def node_def by code_simp
  have h4: "dirname st = []"
    unfolding st_def mf_def md_def node_def by code_simp
  have h5: "commands_attrs mf md node (Attr node) locals0 = Inr st'"
    unfolding st'_def mf_def md_def node_def by code_simp
  have h6: "hasRightStyles st' \<and> (isTrackedFile st' \<or> isDir st')"
    unfolding st'_def mf_def md_def node_def by code_simp
  have h7: "[] \<in> set (main_ignoreDirs [])"
    by code_simp
  from empty_ignore_flag[of "main_ignoreDirs []" "''.go''" mf md node st _ "''.go''" mf md node st']
    h1 h2 h3 h4 h5 h6 h7
  show ?thesis unfolding node_def by blast
qed

end
